theory Spec2Isabelle
  imports Main "HOL-Library.Sublist"
begin

text \<open>
  A model of \<open>src/ingestion/radiopaedia.py\<close> and \<open>src/models/article.py\<close>: the two
  entry points \<open>scrape_case\<close> and \<open>scrape_article\<close> from the parsed page on.  The HTTP
  fetch, the HTML parser, \<open>json.loads\<close> and the clock are outside the model: the page
  is given as a tree, the decoder and the time stamp are parameters.  (Line 1 of the module
  is the shell command \<open>pip install requests beautifulsoup4\<close>; the functions are
  modelled as they are written below it.)
\<close>

section \<open>Text primitives of the Python source\<close>

text \<open>
  Python strings are sequences of code points.  They are modelled as \<open>string\<close>; a
  \<open>char\<close> stands for a code point below 256, and the character classes below are
  Python's classes restricted to that range.
\<close>

definition py_isspace :: "char \<Rightarrow> bool" where
  \<comment> \<open>the characters matched by \<open>\s\<close> and removed by \<open>str.strip()\<close>\<close>
  "py_isspace c =
     (let n = (of_char c :: nat)
      in (9 \<le> n \<and> n \<le> 13) \<or> (28 \<le> n \<and> n \<le> 32) \<or> n = 133 \<or> n = 160)"

definition py_isdigit :: "char \<Rightarrow> bool" where
  \<comment> \<open>the characters matched by \<open>\d\<close>\<close>
  "py_isdigit c = (let n = (of_char c :: nat) in 48 \<le> n \<and> n \<le> 57)"

definition lower_char :: "char \<Rightarrow> char" where
  "lower_char c =
     (let n = (of_char c :: nat)
      in if (65 \<le> n \<and> n \<le> 90) \<or> (192 \<le> n \<and> n \<le> 222 \<and> n \<noteq> 215)
         then char_of (n + 32) else c)"

definition lower :: "string \<Rightarrow> string" where
  \<comment> \<open>\<open>str.lower()\<close>\<close>
  "lower s = map lower_char s"

function sub_ws :: "string \<Rightarrow> string" where
  \<comment> \<open>\<open>re.sub(r'\s+', ' ', text)\<close>: every maximal run of whitespace becomes one blank\<close>
  "sub_ws [] = []"
| "sub_ws (c # cs) =
     (if py_isspace c then CHR '' '' # sub_ws (dropWhile py_isspace cs)
      else c # sub_ws cs)"
  by pat_completeness auto
termination
  by (relation "measure length") (auto simp: length_dropWhile_le less_Suc_eq_le)

definition strip :: "string \<Rightarrow> string" where
  \<comment> \<open>\<open>str.strip()\<close>\<close>
  "strip s = rev (dropWhile py_isspace (rev (dropWhile py_isspace s)))"

definition clean_text :: "string option \<Rightarrow> string" where
  \<comment> \<open>\<open>if not text: return ""\<close>, then \<open>re.sub(r'\s+', ' ', text).strip()\<close>\<close>
  "clean_text text =
     (case text of
        None \<Rightarrow> []
      | Some t \<Rightarrow> if t = [] then [] else strip (sub_ws t))"

fun startswith :: "string \<Rightarrow> string \<Rightarrow> bool" where
  \<comment> \<open>\<open>s.startswith(p)\<close>, the pattern first\<close>
  "startswith [] s = True"
| "startswith (p # ps) [] = False"
| "startswith (p # ps) (c # cs) = (p = c \<and> startswith ps cs)"

fun py_in :: "string \<Rightarrow> string \<Rightarrow> bool" where
  \<comment> \<open>\<open>sub in s\<close> on strings: \<open>sub\<close> occurs in \<open>s\<close> as a contiguous run\<close>
  "py_in sub [] = (sub = [])"
| "py_in sub (c # cs) = (startswith sub (c # cs) \<or> py_in sub cs)"

function remove_from :: "string \<Rightarrow> string \<Rightarrow> string" where
  \<comment> \<open>the scan of \<open>s.replace(old, '')\<close> for a non-empty \<open>old\<close>: leftmost
      occurrences, not overlapping\<close>
  "remove_from old [] = []"
| "remove_from old (c # cs) =
     (if old \<noteq> [] \<and> startswith old (c # cs)
      then remove_from old (drop (length old) (c # cs))
      else c # remove_from old cs)"
  by pat_completeness auto
termination
  by (relation "measure (\<lambda>(old, s). length s)") auto

definition replace_empty :: "string \<Rightarrow> string \<Rightarrow> string" where
  \<comment> \<open>\<open>s.replace(old, '')\<close>; an empty \<open>old\<close> leaves \<open>s\<close> as it is\<close>
  "replace_empty old s = (if old = [] then s else remove_from old s)"

definition replace_char :: "char \<Rightarrow> char \<Rightarrow> string \<Rightarrow> string" where
  \<comment> \<open>\<open>s.replace(a, b)\<close> for one-character strings\<close>
  "replace_char a b s = map (\<lambda>c. if c = a then b else c) s"

fun join :: "string \<Rightarrow> string list \<Rightarrow> string" where
  \<comment> \<open>\<open>sep.join(xs)\<close>\<close>
  "join sep [] = []"
| "join sep [x] = x"
| "join sep (x # y # ys) = x @ sep @ join sep (y # ys)"

definition findall_digits_first :: "string \<Rightarrow> string" where
  \<comment> \<open>\<open>re.findall(r'\d+', value)\<close>: the first match, empty when the list of matches
      is empty\<close>
  "findall_digits_first s = takeWhile py_isdigit (dropWhile (\<lambda>c. \<not> py_isdigit c) s)"

definition int_of_digits :: "string \<Rightarrow> int" where
  \<comment> \<open>the value of a run of decimal digits\<close>
  "int_of_digits ds = foldl (\<lambda>acc c. 10 * acc + (int (of_char c) - 48)) 0 ds"

definition py_int :: "string \<Rightarrow> int option" where
  \<comment> \<open>\<open>int(ds)\<close> on a run of decimal digits: \<open>None\<close> where it raises
      \<open>ValueError\<close>, on more digits than the interpreter converts (4300 by default,
      leading zeros counted)\<close>
  "py_int ds = (if length ds > 4300 then None else Some (int_of_digits ds))"

function str_nat :: "nat \<Rightarrow> string" where
  \<comment> \<open>the decimal rendering of a non-negative integer in an f-string\<close>
  "str_nat n =
     (if n < 10 then [char_of (48 + n)]
      else str_nat (n div 10) @ [char_of (48 + n mod 10)])"
  by pat_completeness auto
termination
  by (relation "measure id") auto


section \<open>The parsed document\<close>

text \<open>
  \<open>BeautifulSoup(resp.text, 'html.parser')\<close> is the work of a library; the model
  starts at the tree it returns.  An element carries its tag name, its attributes, the
  tokens of its \<open>class\<close> attribute and its children in document order.  A string
  child is a \<open>NavigableString\<close>.  A string that the parser met inside an \<open>rt\<close>,
  \<open>rp\<close>, \<open>style\<close>, \<open>script\<close> or \<open>template\<close> element has a class of its own
  (\<open>RubyTextString\<close>, \<open>RubyParenthesisString\<close>, \<open>Stylesheet\<close>, \<open>Script\<close>,
  \<open>TemplateString\<close>): it is a \<open>ContainerString\<close> that carries the name of that
  element.  Comments and the remaining special strings are \<open>Comment\<close>.  The document is
  the list of the children of the soup object.
\<close>

datatype node =
    Element (name: string) (attrs: "(string \<times> string) list") (classes: "string list")
      (children: "node list")
  | NavigableString string
  | ContainerString string string
  | Comment string

fun node_name :: "node \<Rightarrow> string option" where
  \<comment> \<open>\<open>child.name\<close>: \<open>None\<close> on a string\<close>
  "node_name (Element n a c ch) = Some n"
| "node_name (NavigableString s) = None"
| "node_name (ContainerString k s) = None"
| "node_name (Comment s) = None"

definition interesting_string_types :: "string \<Rightarrow> string option" where
  \<comment> \<open>the string class an element reads as its text: its own class for the five
      container elements, \<open>NavigableString\<close> (here \<open>None\<close>) for every other\<close>
  "interesting_string_types n =
     (if n \<in> {''rt'', ''rp'', ''style'', ''script'', ''template''} then Some n else None)"

fun all_strings :: "string option \<Rightarrow> node \<Rightarrow> string" where
  \<comment> \<open>the strings of the wanted class at and below a node, concatenated in document
      order\<close>
  "all_strings k (Element n a c ch) = concat (map (all_strings k) ch)"
| "all_strings k (NavigableString s) = (if k = None then s else [])"
| "all_strings k (ContainerString t s) = (if k = Some t then s else [])"
| "all_strings k (Comment s) = []"

fun get_text :: "node \<Rightarrow> string" where
  \<comment> \<open>\<open>el.text\<close>, that is \<open>el.get_text()\<close>: on an element the strings below it that
      have the class the element reads; on a string the string itself if it is a plain
      \<open>NavigableString\<close>\<close>
  "get_text (Element n a c ch) =
     concat (map (all_strings (interesting_string_types n)) ch)"
| "get_text (NavigableString s) = s"
| "get_text (ContainerString t s) = []"
| "get_text (Comment s) = []"

definition get_attr :: "node \<Rightarrow> string \<Rightarrow> string option" where
  \<comment> \<open>\<open>el.get(key)\<close>; \<open>el.has_attr(key)\<close> is \<open>get_attr el key \<noteq> None\<close>\<close>
  "get_attr el key = (case el of Element n a c ch \<Rightarrow> map_of a key | _ \<Rightarrow> None)"

subsection \<open>CSS selection\<close>

text \<open>
  The selectors of the source are chains of compound selectors joined by the descendant
  combinator; a compound selector is a conjunction of a tag name, class names and an id.
\<close>

datatype simple = Tag string | Class string | Id string

type_synonym compound = "simple list"
type_synonym selector = "compound list"

fun matches_simple :: "node \<Rightarrow> simple \<Rightarrow> bool" where
  "matches_simple (Element n a c ch) (Tag t) = (n = t)"
| "matches_simple (Element n a c ch) (Class k) = (k \<in> set c)"
| "matches_simple (Element n a c ch) (Id i) = (map_of a ''id'' = Some i)"
| "matches_simple (NavigableString s) x = False"
| "matches_simple (ContainerString t s) x = False"
| "matches_simple (Comment s) x = False"

definition matches_compound :: "compound \<Rightarrow> node \<Rightarrow> bool" where
  "matches_compound c el = list_all (matches_simple el) c"

fun ancestors_match :: "compound list \<Rightarrow> node list \<Rightarrow> bool" where
  \<comment> \<open>the remaining compounds, innermost first, against the ancestors, nearest first\<close>
  "ancestors_match [] ancs = True"
| "ancestors_match (c # cs) [] = False"
| "ancestors_match (c # cs) (a # ancs) =
     (if matches_compound c a then ancestors_match cs ancs
      else ancestors_match (c # cs) ancs)"

definition matches :: "selector \<Rightarrow> node list \<Rightarrow> node \<Rightarrow> bool" where
  "matches sel ancs el =
     (case rev sel of
        [] \<Rightarrow> False
      | c # cs \<Rightarrow> matches_compound c el \<and> ancestors_match cs ancs)"

fun select_node :: "selector \<Rightarrow> node list \<Rightarrow> node \<Rightarrow> node list" where
  \<comment> \<open>the matching elements at and below a node, in document order\<close>
  "select_node sel ancs (Element n a c ch) =
     (if matches sel ancs (Element n a c ch) then [Element n a c ch] else [])
     @ concat (map (select_node sel (Element n a c ch # ancs)) ch)"
| "select_node sel ancs (NavigableString s) = []"
| "select_node sel ancs (ContainerString t s) = []"
| "select_node sel ancs (Comment s) = []"

definition select :: "selector \<Rightarrow> node list \<Rightarrow> node list" where
  \<comment> \<open>\<open>soup.select(sel)\<close>\<close>
  "select sel soup = concat (map (select_node sel []) soup)"

definition select_one :: "selector \<Rightarrow> node list \<Rightarrow> node option" where
  \<comment> \<open>\<open>soup.select_one(sel)\<close>: the first match or \<open>None\<close>\<close>
  "select_one sel soup = (case select sel soup of [] \<Rightarrow> None | el # els \<Rightarrow> Some el)"

definition tag_select :: "selector \<Rightarrow> node \<Rightarrow> node list" where
  \<comment> \<open>\<open>el.select(sel)\<close>: the matches among the descendants of \<open>el\<close>.  The source
      calls it with one-compound selectors only, which look at no ancestor.\<close>
  "tag_select sel el = concat (map (select_node sel [el]) (children el))"

definition tag_select_one :: "selector \<Rightarrow> node \<Rightarrow> node option" where
  \<comment> \<open>\<open>el.select_one(sel)\<close>\<close>
  "tag_select_one sel el = (case tag_select sel el of [] \<Rightarrow> None | x # xs \<Rightarrow> Some x)"

fun find_all :: "string \<Rightarrow> node \<Rightarrow> node list" where
  \<comment> \<open>the elements named \<open>t\<close> at and below a node, in document order\<close>
  "find_all t (Element n a c ch) =
     (if n = t then [Element n a c ch] else []) @ concat (map (find_all t) ch)"
| "find_all t (NavigableString s) = []"
| "find_all t (ContainerString k s) = []"
| "find_all t (Comment s) = []"

definition tag_find_all :: "string \<Rightarrow> node \<Rightarrow> node list" where
  \<comment> \<open>\<open>el.find_all(t)\<close>: among the descendants of \<open>el\<close>\<close>
  "tag_find_all t el = concat (map (find_all t) (children el))"

text \<open>The structural anchors of the source.\<close>

definition sel_case_rid :: selector where
  "sel_case_rid = [[Class ''row'', Class ''rid''], [Class ''col-sm-8'']]"

definition sel_article_rid :: selector where
  "sel_article_rid =
     [[Class ''row'', Class ''section-end'', Class ''rid''], [Class ''col-sm-8'']]"

definition sel_date :: selector where
  "sel_date = [[Tag ''time'', Class ''date'']]"

definition sel_title :: selector where
  "sel_title = [[Tag ''h1'', Class ''header-title'']]"

definition sel_systems :: selector where
  "sel_systems = [[Class ''meta-item-systems''], [Class ''col-sm-8''], [Tag ''a'']]"

definition sel_tags :: selector where
  "sel_tags = [[Class ''meta-item-tags''], [Class ''col-sm-8''], [Tag ''a'']]"

definition sel_patient_data :: selector where
  "sel_patient_data = [[Id ''case-patient-data'']]"

definition sel_data_item :: selector where
  "sel_data_item = [[Class ''data-item'']]"

definition sel_data_item_label :: selector where
  "sel_data_item_label = [[Class ''data-item-label'']]"

definition sel_certainty :: selector where
  "sel_certainty = [[Class ''diagnostic-certainty-container'']]"

definition sel_findings :: selector where
  "sel_findings = [[Class ''study-findings'', Class ''body'']]"

definition sel_discussion :: selector where
  "sel_discussion = [[Id ''case-discussion'']]"

definition sel_carousel :: selector where
  "sel_carousel = [[Class ''_StudyCarouselHeader_ImageListItem''], [Tag ''img'']]"

definition sel_content :: selector where
  "sel_content = [[Class ''body'', Class ''user-generated-content'']]"

definition sel_viewer_data :: selector where
  "sel_viewer_data = [[Class ''SidebarStudyViewer''], [Class ''hidden'', Class ''data'']]"


section \<open>Records\<close>

datatype error = AttributeError | ValueError
  \<comment> \<open>\<open>AttributeError\<close>: \<open>.text\<close> read on the \<open>None\<close> that \<open>select_one\<close>
      returned; \<open>ValueError\<close>: \<open>int\<close> on a digit run over the conversion limit.  No
      other exception leaves the two entry points once the page is fetched and parsed.\<close>

text \<open>
  The values \<open>json.loads\<close> returns.  A \<open>JObject\<close> lists the items of a dict, each key
  once.  A float is carried along and never inspected: its type is left open, and the
  equality that evaluation asks for on it is the logical one.
\<close>

typedecl pyfloat

instantiation pyfloat :: equal
begin

definition equal_pyfloat :: "pyfloat \<Rightarrow> pyfloat \<Rightarrow> bool" where
  "equal_pyfloat a b = (a = b)"

instance
  by standard (simp add: equal_pyfloat_def)

end

datatype json =
    JNull
  | JBool bool
  | JInt int
  | JFloat pyfloat
  | JString string
  | JArray "json list"
  | JObject "(string \<times> json) list"

record ArticleSection =
  slug :: string
  title :: string
  markdown :: string

text \<open>
  \<open>caption\<close> and \<open>filepath\<close> are annotated \<open>str\<close>, but \<open>scrape_article\<close> stores
  whatever value the decoded entry holds under the key.
\<close>

record ArticleImage =
  image_id :: string
  figure_label :: "string option"
  modality :: "string option"
  plane :: "string option"
  caption :: json
  filepath :: json

record metadata =
  created_at :: string
  url :: string
  license :: string

record Article =
  article_source :: string
  article_source_id :: string
  article_type :: string
  article_title :: string
  article_body_system :: string
  article_body_part :: "string option"
  article_sections :: "ArticleSection list"
  article_images :: "ArticleImage list"
  article_tags :: "string list"
  article_metadata :: metadata

text \<open>
  The module \<open>src.models.case\<close> is read through the two constructor calls of
  \<open>scrape_case\<close>: the records below have the keyword arguments of those calls as fields.
\<close>

record CaseImage =
  case_image_id :: string
  case_image_modality :: string
  case_image_plane :: string
  case_image_filepath :: string
  case_image_caption :: string
  case_image_annotations :: "(string \<times> string) list"

record diagnosis =
  diagnosis_text :: string
  certainty :: string

record narrative =
  findings :: string
  impression :: string
  discussion :: string

record Case =
  case_source :: string
  case_source_id :: string
  case_title :: string
  case_body_system :: string
  case_body_part :: string
  case_modality :: "string list"
  case_clinical_presentation :: string
  case_diagnosis :: diagnosis
  case_narrative :: narrative
  case_images :: "CaseImage list"
  case_tags :: "string list"
  case_metadata :: metadata

text \<open>The local dict \<open>patient\<close> of \<open>scrape_case\<close>.\<close>

record patient =
  age :: "int option"
  age_unit :: string
  sex :: "string option"
  other :: "string option"

section \<open>Field extraction shared by both entry points\<close>

definition source_id_of :: "selector \<Rightarrow> node list \<Rightarrow> string" where
  \<comment> \<open>\<open>f"rID-{clean_text(rid_div.text)}" if rid_div else "unknown"\<close>\<close>
  "source_id_of sel soup =
     (case select_one sel soup of
        None \<Rightarrow> ''unknown''
      | Some rid_div \<Rightarrow> ''rID-'' @ clean_text (Some (get_text rid_div)))"

definition body_system_of :: "node list \<Rightarrow> string" where
  "body_system_of soup =
     (case select_one sel_systems soup of
        None \<Rightarrow> ''Unknown''
      | Some system_el \<Rightarrow> clean_text (Some (get_text system_el)))"

definition tags_of :: "node list \<Rightarrow> string list" where
  "tags_of soup = map (\<lambda>a. clean_text (Some (get_text a))) (select sel_tags soup)"

section \<open>\<open>scrape_case\<close>\<close>

definition patient_item :: "node \<Rightarrow> patient \<Rightarrow> error + patient" where
  \<comment> \<open>one turn of the loop over \<open>patient_data.select('.data-item')\<close>\<close>
  "patient_item item p =
     (case tag_select_one sel_data_item_label item of
        None \<Rightarrow> Inl AttributeError
      | Some label_el \<Rightarrow>
          (let label = lower (clean_text (Some (get_text label_el)));
               value = replace_empty (get_text label_el) (clean_text (Some (get_text item)))
           in if py_in ''age'' label then
                (let nums = findall_digits_first value
                 in if nums \<noteq> []
                    then (case py_int nums of
                            None \<Rightarrow> Inl ValueError
                          | Some n \<Rightarrow> Inr (p\<lparr>age := Some n\<rparr>))
                    else Inr p)
              else if py_in ''gender'' label \<or> py_in ''sex'' label then
                Inr (p\<lparr>sex := Some (lower value)\<rparr>)
              else Inr p))"

fun patient_items :: "node list \<Rightarrow> patient \<Rightarrow> error + patient" where
  "patient_items [] p = Inr p"
| "patient_items (item # items) p =
     (case patient_item item p of
        Inl e \<Rightarrow> Inl e
      | Inr p' \<Rightarrow> patient_items items p')"

definition patient_of :: "node list \<Rightarrow> error + patient" where
  \<comment> \<open>step 3 of \<open>scrape_case\<close>: the dict \<open>patient\<close> after the loop\<close>
  "patient_of soup =
     (let p = \<lparr>age = None, age_unit = ''years'', sex = None, other = None\<rparr>
      in case select_one sel_patient_data soup of
           None \<Rightarrow> Inr p
         | Some patient_data \<Rightarrow> patient_items (tag_select sel_data_item patient_data) p)"

fun carousel_images :: "string \<Rightarrow> nat \<Rightarrow> node list \<Rightarrow> CaseImage list" where
  \<comment> \<open>the loop over \<open>enumerate(carousel_items)\<close>, from index \<open>idx\<close> on\<close>
  "carousel_images source_id idx [] = []"
| "carousel_images source_id idx (img # imgs) =
     (case get_attr img ''src'' of
        None \<Rightarrow> carousel_images source_id (Suc idx) imgs
      | Some src \<Rightarrow>
          if src = [] then carousel_images source_id (Suc idx) imgs
          else \<lparr>case_image_id = source_id @ ''_img_'' @ str_nat (idx + 1),
                case_image_modality = ''Unknown'',
                case_image_plane = ''Unknown'',
                case_image_filepath = src,
                case_image_caption = ''Image '' @ str_nat (idx + 1) @ '' from case'',
                case_image_annotations = []\<rparr>
               # carousel_images source_id (Suc idx) imgs)"

definition case_title_of :: "node list \<Rightarrow> string" where
  \<comment> \<open>line 41: the guarded read of the heading\<close>
  "case_title_of soup =
     (case select_one sel_title soup of
        None \<Rightarrow> ''Untitled''
      | Some h \<Rightarrow> clean_text (Some (get_text h)))"

definition created_at_of :: "string \<Rightarrow> node list \<Rightarrow> string" where
  \<comment> \<open>\<open>utcnow\<close> is the value of \<open>datetime.utcnow().isoformat()\<close>\<close>
  "created_at_of utcnow soup =
     (case select_one sel_date soup of
        None \<Rightarrow> utcnow
      | Some date_el \<Rightarrow>
          (case get_attr date_el ''datetime'' of None \<Rightarrow> utcnow | Some d \<Rightarrow> d))"

definition scrape_case :: "string \<Rightarrow> string \<Rightarrow> node list \<Rightarrow> error + Case" where
  \<comment> \<open>\<open>scrape_case(url)\<close> from the parsed page on; \<open>patient\<close> is computed and passed to
      nothing, as in the source\<close>
  "scrape_case url' utcnow soup =
     (let source_id = source_id_of sel_case_rid soup;
          created = created_at_of utcnow soup;
          title' = case_title_of soup;
          body_system = body_system_of soup;
          tags = tags_of soup
      in case patient_of soup of
           Inl e \<Rightarrow> Inl e
         | Inr patient \<Rightarrow>
             Inr \<lparr>case_source = ''radiopaedia'',
                  case_source_id = source_id,
                  case_title = title',
                  case_body_system = body_system,
                  case_body_part = ''Unknown'',
                  case_modality = [if ''ct'' \<in> set tags then ''CT'' else ''X-ray''],
                  case_clinical_presentation = ''Not explicitly stated'',
                  case_diagnosis =
                    \<lparr>diagnosis_text = title',
                     certainty =
                       (case select_one sel_certainty soup of
                          None \<Rightarrow> ''unknown''
                        | Some diagnosis_div \<Rightarrow> clean_text (Some (get_text diagnosis_div)))\<rparr>,
                  case_narrative =
                    \<lparr>findings =
                       (case select_one sel_findings soup of
                          None \<Rightarrow> []
                        | Some findings_div \<Rightarrow> clean_text (Some (get_text findings_div))),
                     impression = [],
                     discussion =
                       (case select_one sel_discussion soup of
                          None \<Rightarrow> []
                        | Some discussion_div \<Rightarrow> clean_text (Some (get_text discussion_div)))\<rparr>,
                  case_images = carousel_images source_id 0 (select sel_carousel soup),
                  case_tags = tags,
                  case_metadata =
                    \<lparr>created_at = created, url = url', license = ''See Radiopaedia ToS''\<rparr>\<rparr>)"

section \<open>\<open>scrape_article\<close>\<close>

definition section_of :: "string \<Rightarrow> string list \<Rightarrow> ArticleSection" where
  \<comment> \<open>the \<open>ArticleSection(...)\<close> built from \<open>current_section\<close>\<close>
  "section_of t lines =
     \<lparr>slug = replace_char CHR '' '' CHR ''_'' (lower t),
      title = t,
      markdown = join [CHR 0x0A] lines\<rparr>"

definition flush :: "string \<Rightarrow> string list \<Rightarrow> ArticleSection list" where
  \<comment> \<open>\<open>if current_section["text"]: sections.append(...)\<close>, as the list appended\<close>
  "flush t lines = (if lines \<noteq> [] then [section_of t lines] else [])"

definition is_heading :: "node \<Rightarrow> bool" where
  "is_heading child = (node_name child \<in> {Some ''h2'', Some ''h3'', Some ''h4''})"

definition child_lines :: "node \<Rightarrow> string list" where
  \<comment> \<open>the lines a child that is no heading adds to \<open>current_section['text']\<close>\<close>
  "child_lines child =
     (if node_name child = Some ''p'' then [clean_text (Some (get_text child))]
      else if node_name child = Some ''ul''
        then map (\<lambda>li. ''- '' @ get_text li) (tag_find_all ''li'' child)
      else [])"

fun segment ::
  "node list \<Rightarrow> string \<Rightarrow> string list \<Rightarrow> ArticleSection list \<Rightarrow> ArticleSection list" where
  \<comment> \<open>the loop over \<open>content_div.children\<close> and the final append; the state is the
      title and lines of \<open>current_section\<close> and the list \<open>sections\<close>\<close>
  "segment [] t lines sections = sections @ flush t lines"
| "segment (child # rest) t lines sections =
     (if is_heading child
        then segment rest (clean_text (Some (get_text child))) [] (sections @ flush t lines)
      else segment rest t (lines @ child_lines child) sections)"

definition sections_of :: "node list \<Rightarrow> ArticleSection list" where
  "sections_of soup =
     (case select_one sel_content soup of
        None \<Rightarrow> []
      | Some content_div \<Rightarrow> segment (children content_div) ''Introduction'' [] [])"

definition dict_get :: "(string \<times> json) list \<Rightarrow> string \<Rightarrow> json \<Rightarrow> json" where
  \<comment> \<open>\<open>d.get(key, default)\<close>\<close>
  "dict_get d key dflt = (case map_of d key of None \<Rightarrow> dflt | Some v \<Rightarrow> v)"

fun iter_json :: "json \<Rightarrow> json list option" where
  \<comment> \<open>the values a \<open>for\<close> loop over a decoded value visits; \<open>None\<close> where the value is not
      iterable and the loop raises \<open>TypeError\<close>\<close>
  "iter_json (JArray xs) = Some xs"
| "iter_json (JString s) = Some (map (\<lambda>c. JString [c]) s)"
| "iter_json (JObject d) = Some (map (\<lambda>kv. JString (fst kv)) d)"
| "iter_json JNull = None"
| "iter_json (JBool b) = None"
| "iter_json (JInt i) = None"
| "iter_json (JFloat f) = None"

definition py_str :: "(json \<Rightarrow> string) \<Rightarrow> json \<Rightarrow> string" where
  \<comment> \<open>\<open>str(v)\<close>: a string is itself; the rendering of every other value is the
      parameter \<open>str_other\<close>\<close>
  "py_str str_other v = (case v of JString s \<Rightarrow> s | _ \<Rightarrow> str_other v)"

fun inclusions_loop ::
  "(json \<Rightarrow> string) \<Rightarrow> json list \<Rightarrow> ArticleImage list \<Rightarrow> ArticleImage list" where
  \<comment> \<open>the loop inside \<open>try\<close>: \<open>item.get\<close> on a value that is no dict raises, and
      \<open>except: pass\<close> keeps the images appended so far\<close>
  "inclusions_loop str_other [] images = images"
| "inclusions_loop str_other (item # items) images =
     (case item of
        JObject d \<Rightarrow>
          inclusions_loop str_other items
            (images @
             [\<lparr>image_id = py_str str_other (dict_get d ''imageId'' (JString ''unknown'')),
               figure_label = None,
               modality = Some ''Unknown'',
               plane = None,
               caption = dict_get d ''caption'' (JString []),
               filepath = dict_get d ''thumbnail'' (JString [])\<rparr>])
      | _ \<Rightarrow> images)"

definition images_of ::
  "(string \<Rightarrow> json option) \<Rightarrow> (json \<Rightarrow> string) \<Rightarrow> node list \<Rightarrow> ArticleImage list" where
  \<comment> \<open>lines 184 to 200.  \<open>loads\<close> is \<open>json.loads\<close>, \<open>None\<close> where it raises; every
      exception inside \<open>try\<close> ends the block with the list as it stands\<close>
  "images_of loads str_other soup =
     (case select_one sel_viewer_data soup of
        None \<Rightarrow> []
      | Some viewer_data \<Rightarrow>
          (case loads (get_text viewer_data) of
             None \<Rightarrow> []
           | Some data \<Rightarrow>
               (case data of
                  JObject d \<Rightarrow>
                    (case iter_json (dict_get d ''inclusions'' (JArray [])) of
                       None \<Rightarrow> []
                     | Some items \<Rightarrow> inclusions_loop str_other items [])
                | _ \<Rightarrow> [])))"

definition scrape_article ::
  "(string \<Rightarrow> json option) \<Rightarrow> (json \<Rightarrow> string) \<Rightarrow> string \<Rightarrow> string \<Rightarrow> node list
     \<Rightarrow> error + Article" where
  \<comment> \<open>\<open>scrape_article(url)\<close> from the parsed page on; line 144 reads \<open>.text\<close> of the
      heading without a guard\<close>
  "scrape_article loads str_other url' utcnow soup =
     (case select_one sel_title soup of
        None \<Rightarrow> Inl AttributeError
      | Some h \<Rightarrow>
          Inr \<lparr>article_source = ''radiopaedia'',
               article_source_id = source_id_of sel_article_rid soup,
               article_type = ''article'',
               article_title = clean_text (Some (get_text h)),
               article_body_system = body_system_of soup,
               article_body_part = None,
               article_sections = sections_of soup,
               article_images = images_of loads str_other soup,
               article_tags = tags_of soup,
               article_metadata =
                 \<lparr>created_at = utcnow, url = url', license = ''See Radiopaedia ToS''\<rparr>\<rparr>)"
section \<open>The section list read off the document\<close>

text \<open>
  The heading sequence of the narrative container and the part of it that the segmenter
  keeps, written without the loop: every heading child with the children that follow it up
  to the next heading, and the lines those children contribute.
\<close>

definition heading_title :: "node \<Rightarrow> string" where
  "heading_title h = clean_text (Some (get_text h))"

definition content_children :: "node list \<Rightarrow> node list" where
  "content_children soup =
     (case select_one sel_content soup of None \<Rightarrow> [] | Some content_div \<Rightarrow> children content_div)"

definition heading_titles :: "node list \<Rightarrow> string list" where
  "heading_titles soup = map heading_title (filter is_heading (content_children soup))"

fun heading_bodies :: "node list \<Rightarrow> (node \<times> node list) list" where
  "heading_bodies [] = []"
| "heading_bodies (child # rest) =
     (if is_heading child then [(child, takeWhile (\<lambda>n. \<not> is_heading n) rest)] else [])
     @ heading_bodies rest"

definition body_lines :: "node list \<Rightarrow> string list" where
  "body_lines body = concat (map child_lines body)"

definition contributes :: "node \<Rightarrow> bool" where
  \<comment> \<open>a child that gives a section content: a \<open>p\<close> element, or a \<open>ul\<close> element
      with an \<open>li\<close> element below it\<close>
  "contributes child =
     (node_name child = Some ''p''
      \<or> (node_name child = Some ''ul'' \<and> tag_find_all ''li'' child \<noteq> []))"

definition has_content :: "node list \<Rightarrow> bool" where
  "has_content body = list_ex contributes body"

definition kept_titles :: "node list \<Rightarrow> string list" where
  "kept_titles cs =
     (if has_content (takeWhile (\<lambda>n. \<not> is_heading n) cs) then [''Introduction''] else [])
     @ map (\<lambda>hb. heading_title (fst hb))
         (filter (\<lambda>hb. has_content (snd hb)) (heading_bodies cs))"


section \<open>Sample pages\<close>

text \<open>
  Concrete parsed pages on which the model is evaluated.  \<open>sample_loads\<close> agrees with
  \<open>json.loads\<close> on the two payload texts used below: it decodes the payload of
  scenario D and rejects the truncated payload, and it is applied to nothing else.
  \<open>sample_str\<close> is \<open>str\<close> on \<open>None\<close>, booleans and integers; no sample payload
  holds a float or a container under \<open>imageId\<close>.
\<close>

definition scenario_D_text :: string where
  \<open>scenario_D_text = ''{"inclusions":[{"imageId":"5","caption":"c","thumbnail":"u"}]}''\<close>

definition scenario_D_data :: json where
  "scenario_D_data =
     JObject [(''inclusions'',
       JArray [JObject [(''imageId'', JString ''5''), (''caption'', JString ''c''),
                        (''thumbnail'', JString ''u'')]])]"

definition sample_loads :: "string \<Rightarrow> json option" where
  "sample_loads s = (if s = scenario_D_text then Some scenario_D_data else None)"

definition sample_str :: "json \<Rightarrow> string" where
  "sample_str v =
     (case v of
        JNull \<Rightarrow> ''None''
      | JBool b \<Rightarrow> (if b then ''True'' else ''False'')
      | JInt i \<Rightarrow> (if i < 0 then ''-'' else []) @ str_nat (nat \<bar>i\<bar>)
      | _ \<Rightarrow> [])"

definition heading_el :: "string \<Rightarrow> node" where
  "heading_el t = Element ''h1'' [] [''header-title''] [NavigableString t]"

definition page_no_title :: "node list" where
  "page_no_title =
     [Element ''div'' [] [''body'', ''user-generated-content'']
        [Element ''p'' [] [] [NavigableString ''Text A'']]]"

definition page_sections :: "node list" where
  "page_sections =
     [heading_el ''Bronchiectasis'',
      Element ''div'' [] [''body'', ''user-generated-content'']
        [Element ''p'' [] [] [NavigableString ''Lead''],
         Element ''h2'' [] [] [NavigableString ''Findings''],
         Element ''h3'' [] [] [NavigableString ''CT''],
         Element ''p'' [] [] [NavigableString ''Text B'']]]"

definition page_scenario_C :: "node list" where
  "page_scenario_C =
     [heading_el ''Bronchiectasis'',
      Element ''div'' [] [''body'', ''user-generated-content'']
        [Element ''h2'' [] [] [NavigableString ''Findings''],
         Element ''p'' [] [] [NavigableString ''Text A''],
         Element ''h2'' [] [] [NavigableString ''Discussion''],
         Element ''p'' [] [] [NavigableString ''Text B'']]]"

definition page_list :: "node list" where
  "page_list =
     [heading_el ''Bronchiectasis'',
      Element ''div'' [] [''body'', ''user-generated-content'']
        [Element ''ul'' [] [] [Element ''li'' [] [] [NavigableString '' a  b '']]]]"

definition hidden_data_el :: "string \<Rightarrow> node" where
  "hidden_data_el t = Element ''div'' [] [''hidden'', ''data''] [NavigableString t]"

definition viewer_el :: "string \<Rightarrow> node" where
  "viewer_el t = Element ''div'' [] [''SidebarStudyViewer''] [hidden_data_el t]"

definition bad_payload_text :: string where
  \<open>bad_payload_text = ''{"inclusions": [''\<close>

definition page_scenario_D :: "node list" where
  "page_scenario_D = [heading_el ''Bronchiectasis'', viewer_el scenario_D_text]"

definition page_bad_payload :: "node list" where
  "page_bad_payload = [heading_el ''Bronchiectasis'', viewer_el bad_payload_text]"

definition data_item :: "string \<Rightarrow> string \<Rightarrow> node" where
  "data_item label value =
     Element ''div'' [] [''data-item'']
       [Element ''strong'' [] [''data-item-label''] [NavigableString label],
        NavigableString value]"

definition page_scenario_B :: "node list" where
  "page_scenario_B =
     [Element ''div'' [(''id'', ''case-patient-data'')] []
        [data_item ''Age:'' '' 34 years'', data_item ''Gender:'' '' Female'']]"

definition item_no_label :: node where
  "item_no_label = Element ''div'' [] [''data-item''] [NavigableString ''Female'']"

definition patient_data_no_label :: node where
  "patient_data_no_label =
     Element ''div'' [(''id'', ''case-patient-data'')] []
       [data_item ''Age:'' '' 34 years'', item_no_label]"

definition page_no_label :: "node list" where
  "page_no_label = [patient_data_no_label]"

definition item_nested_label :: node where
  "item_nested_label =
     Element ''div'' [] [''data-item'']
       [Element ''span'' [] []
          [Element ''strong'' [] [''data-item-label''] [NavigableString ''Age:'']],
        NavigableString '' 34 years'']"

definition patient_data_nested_label :: node where
  "patient_data_nested_label =
     Element ''div'' [(''id'', ''case-patient-data'')] [] [item_nested_label]"

definition page_nested_label :: "node list" where
  "page_nested_label = [patient_data_nested_label]"

definition rid_el :: node where
  "rid_el = Element ''div'' [] [''col-sm-8''] [NavigableString '' 8654 '']"

definition page_rid :: "node list" where
  "page_rid =
     [heading_el ''Bronchiectasis'',
      Element ''div'' [] [''row'', ''section-end'', ''rid''] [rid_el]]"

definition rid_text_el :: node where
  "rid_text_el = Element ''div'' [] [''col-sm-8''] [NavigableString '' ID:  86 54x '']"

definition page_rid_text :: "node list" where
  "page_rid_text =
     [heading_el ''Bronchiectasis'',
      Element ''div'' [] [''row'', ''section-end'', ''rid''] [rid_text_el]]"




text \<open>The label elements among the children of a data item.\<close>

definition label_children :: "node \<Rightarrow> node list" where
  "label_children item = filter (matches_compound [Class ''data-item-label'']) (children item)"

text \<open>
  Whitespace normalization written without \<open>clean_text\<close>: the words of a text joined
  by single blanks.  The digits of a text are what is left of it when every other character
  is dropped.
\<close>

function split_ws :: "string \<Rightarrow> string list" where
  \<comment> \<open>\<open>s.split()\<close>: the maximal runs of characters that are not whitespace\<close>
  "split_ws s =
     (if dropWhile py_isspace s = [] then []
      else takeWhile (\<lambda>c. \<not> py_isspace c) (dropWhile py_isspace s)
           # split_ws (dropWhile (\<lambda>c. \<not> py_isspace c) (dropWhile py_isspace s)))"
  by pat_completeness auto
termination
proof (relation "measure length")
  show "wf (measure length)" by simp
next
  fix s :: string
  assume n: "dropWhile py_isspace s \<noteq> []"
  let ?w = "dropWhile py_isspace s"
  from n have "\<not> py_isspace (hd ?w)"
    by (rule hd_dropWhile)
  with n obtain c cs where w: "?w = c # cs" and c: "\<not> py_isspace c"
    by (cases ?w) auto
  have "length (dropWhile (\<lambda>c. \<not> py_isspace c) ?w) \<le> length cs"
    using c by (simp add: w length_dropWhile_le)
  also have "\<dots> < length ?w"
    by (simp add: w)
  also have "\<dots> \<le> length s"
    by (rule length_dropWhile_le)
  finally show "(dropWhile (\<lambda>c. \<not> py_isspace c) ?w, s) \<in> measure length"
    by simp
qed

declare split_ws.simps [simp del]

definition normalized :: "string \<Rightarrow> string" where
  \<comment> \<open>\<open>' '.join(s.split())\<close>: the words of a text, one blank between them\<close>
  "normalized s = join '' '' (split_ws s)"

definition digits_of :: "string \<Rightarrow> string" where
  "digits_of s = filter py_isdigit s"

text \<open>The identifier contract of both entry points, for a given anchor.\<close>

definition identifier_as_specified :: "selector \<Rightarrow> node list \<Rightarrow> string \<Rightarrow> bool" where
  "identifier_as_specified sel soup sid =
     (sid \<noteq> [] \<and>
      (case select_one sel soup of
         None \<Rightarrow> sid = ''unknown''
       | Some el \<Rightarrow> sid = ''rID-'' @ normalized (get_text el)))"

text \<open>The image that the payload of scenario D decodes to.\<close>

definition image_D :: ArticleImage where
  "image_D =
     \<lparr>image_id = ''5'', figure_label = None, modality = Some ''Unknown'', plane = None,
      caption = JString ''c'', filepath = JString ''u''\<rparr>"

section \<open>Properties of the model\<close>

lemma segment_eq:
  "segment cs t lines sections =
     sections @ flush t (lines @ body_lines (takeWhile (\<lambda>n. \<not> is_heading n) cs))
     @ concat (map (\<lambda>hb. flush (heading_title (fst hb)) (body_lines (snd hb))) (heading_bodies cs))"
proof (induction cs arbitrary: t lines sections)
  case Nil
  then show ?case by (simp add: body_lines_def)
next
  case (Cons child rest)
  show ?case
  proof (cases "is_heading child")
    case True
    then show ?thesis
      by (simp add: Cons.IH body_lines_def heading_title_def)
  next
    case False
    then show ?thesis
      by (simp add: Cons.IH body_lines_def)
  qed
qed

lemma title_flush: "map title (flush t lines) = (if lines \<noteq> [] then [t] else [])"
  by (simp add: flush_def section_of_def)

lemma titles_of_flushed:
  "map title (concat (map (\<lambda>hb. flush (f hb) (g hb)) hbs))
     = map f (filter (\<lambda>hb. g hb \<noteq> []) hbs)"
  by (induction hbs) (simp_all add: title_flush)

lemma child_lines_nonempty: "child_lines child \<noteq> [] \<longleftrightarrow> contributes child"
  by (simp add: child_lines_def contributes_def)

lemma body_lines_nonempty: "body_lines body \<noteq> [] \<longleftrightarrow> has_content body"
  by (induction body) (simp_all add: body_lines_def has_content_def child_lines_nonempty)

lemma kept_titles_by_lines:
  "kept_titles cs =
     (if body_lines (takeWhile (\<lambda>n. \<not> is_heading n) cs) \<noteq> [] then [''Introduction''] else [])
     @ map (\<lambda>hb. heading_title (fst hb))
         (filter (\<lambda>hb. body_lines (snd hb) \<noteq> []) (heading_bodies cs))"
  by (simp add: kept_titles_def body_lines_nonempty)

lemma segment_titles:
  "map title (segment cs ''Introduction'' [] []) = kept_titles cs"
  by (simp add: segment_eq kept_titles_by_lines title_flush titles_of_flushed)

lemma heading_bodies_fst: "map fst (heading_bodies cs) = filter is_heading cs"
  by (induction cs) simp_all

lemma heading_bodies_titles:
  "map (\<lambda>hb. heading_title (fst hb)) (heading_bodies cs) = map heading_title (filter is_heading cs)"
  by (induction cs) simp_all

lemma kept_titles_subseq:
  "subseq (kept_titles cs) (''Introduction'' # map heading_title (filter is_heading cs))"
proof -
  let ?hs = "map (\<lambda>hb. heading_title (fst hb)) (heading_bodies cs)"
  have a: "subseq (map (\<lambda>hb. heading_title (fst hb))
             (filter (\<lambda>hb. body_lines (snd hb) \<noteq> []) (heading_bodies cs))) ?hs"
    by (rule subseq_map) simp
  have b: "?hs = map heading_title (filter is_heading cs)"
    by (rule heading_bodies_titles)
  have c: "subseq (if body_lines (takeWhile (\<lambda>n. \<not> is_heading n) cs) \<noteq> [] then [''Introduction''] else [])
             [''Introduction'']"
    by simp
  from list_emb_append_mono [OF c a] show ?thesis
    by (simp add: kept_titles_by_lines b)
qed

lemma kept_titles_all:
  assumes "\<not> has_content (takeWhile (\<lambda>n. \<not> is_heading n) cs)"
    and "\<forall>hb \<in> set (heading_bodies cs). has_content (snd hb)"
  shows "kept_titles cs = map heading_title (filter is_heading cs)"
proof -
  have "filter (\<lambda>hb. has_content (snd hb)) (heading_bodies cs) = heading_bodies cs"
    using assms(2) by simp
  moreover have "map (\<lambda>hb. heading_title (fst hb)) (heading_bodies cs)
                   = map heading_title (filter is_heading cs)"
    by (rule heading_bodies_titles)
  ultimately show ?thesis
    using assms(1) by (simp add: kept_titles_def)
qed

lemma sections_of_titles: "map title (sections_of soup) = kept_titles (content_children soup)"
  by (simp add: sections_of_def content_children_def segment_titles kept_titles_def has_content_def
      split: option.splits)

lemma scrape_article_fields:
  assumes "scrape_article loads str_other url' utcnow soup = Inr a"
  shows "article_sections a = sections_of soup"
    and "article_images a = images_of loads str_other soup"
    and "article_source_id a = source_id_of sel_article_rid soup"
  using assms by (auto simp: scrape_article_def split: option.splits)

lemma scrape_article_returns:
  "select_one sel_title soup \<noteq> None \<Longrightarrow> \<exists>a. scrape_article loads str_other url' utcnow soup = Inr a"
  by (auto simp: scrape_article_def split: option.splits)


lemma isspace_blank: "py_isspace CHR '' ''"
  by (simp add: py_isspace_def)

lemma digit_not_space: "py_isdigit c \<Longrightarrow> \<not> py_isspace c"
  by (auto simp: py_isdigit_def py_isspace_def Let_def)

lemma sub_ws_nospace_append:
  "\<forall>c \<in> set ds. \<not> py_isspace c \<Longrightarrow> sub_ws (ds @ r) = ds @ sub_ws r"
  by (induction ds) simp_all

lemma sub_ws_spaces:
  assumes "ws \<noteq> []" and "\<forall>c \<in> set ws. py_isspace c" and "r = [] \<or> \<not> py_isspace (hd r)"
  shows "sub_ws (ws @ r) = CHR '' '' # sub_ws r"
proof -
  from assms(1) obtain c ws' where ws: "ws = c # ws'" by (cases ws) auto
  have "dropWhile py_isspace (ws' @ r) = dropWhile py_isspace r"
    using assms(2) ws by (simp add: dropWhile_append2)
  also have "\<dots> = r"
    using assms(3) by (cases r) auto
  finally show ?thesis
    using assms(2) ws by simp
qed

lemma sub_ws_padded:
  assumes "ds \<noteq> []" and "\<forall>c \<in> set ds. \<not> py_isspace c"
    and "\<forall>c \<in> set ws1. py_isspace c" and "\<forall>c \<in> set ws2. py_isspace c"
  shows "sub_ws (ws1 @ ds @ ws2)
           = (if ws1 = [] then [] else '' '') @ ds @ (if ws2 = [] then [] else '' '')"
proof -
  have tail: "sub_ws (ds @ ws2) = ds @ (if ws2 = [] then [] else '' '')"
    using sub_ws_nospace_append [OF assms(2), of ws2] sub_ws_spaces [of ws2 "[]"] assms(4)
    by auto
  have hd: "\<not> py_isspace (hd (ds @ ws2))"
    using assms(1,2) by (cases ds) auto
  show ?thesis
  proof (cases "ws1 = []")
    case True
    then show ?thesis using tail by simp
  next
    case False
    then show ?thesis
      using sub_ws_spaces [of ws1 "ds @ ws2"] assms(3) hd tail by simp
  qed
qed

lemma strip_padded:
  assumes "ds \<noteq> []" and "\<forall>c \<in> set ds. \<not> py_isspace c"
    and "\<forall>c \<in> set a. py_isspace c" and "\<forall>c \<in> set b. py_isspace c"
  shows "strip (a @ ds @ b) = ds"
proof -
  have 1: "dropWhile py_isspace (a @ ds @ b) = ds @ b"
    using assms(1,2,3) by (cases ds) (auto simp: dropWhile_append2)
  obtain ys y where ds: "ds = ys @ [y]"
    using assms(1) by (cases ds rule: rev_cases) auto
  have keep: "dropWhile py_isspace (rev ds) = rev ds"
    using assms(2) by (simp add: ds)
  have "dropWhile py_isspace (rev b @ rev ds) = dropWhile py_isspace (rev ds)"
  proof (rule dropWhile_append2)
    fix x assume "x \<in> set (rev b)"
    then show "py_isspace x" using assms(4) by simp
  qed
  also have "\<dots> = rev ds" by (fact keep)
  finally have 2: "dropWhile py_isspace (rev b @ rev ds) = rev ds" .
  show ?thesis
    by (simp add: strip_def 1 2)
qed

lemma clean_text_padded:
  assumes "ds \<noteq> []" and "\<forall>c \<in> set ds. \<not> py_isspace c"
    and "\<forall>c \<in> set ws1. py_isspace c" and "\<forall>c \<in> set ws2. py_isspace c"
  shows "clean_text (Some (ws1 @ ds @ ws2)) = ds"
proof -
  have "strip ((if ws1 = [] then [] else '' '') @ ds @ (if ws2 = [] then [] else '' '')) = ds"
    by (rule strip_padded) (use assms isspace_blank in auto)
  then show ?thesis
    using assms(1) by (simp add: clean_text_def sub_ws_padded [OF assms])
qed

lemma split_ws_Nil: "split_ws [] = []"
  by (simp add: split_ws.simps)

lemma split_ws_space: "py_isspace c \<Longrightarrow> split_ws (c # cs) = split_ws (dropWhile py_isspace cs)"
  using split_ws.simps [of "c # cs"] split_ws.simps [of "dropWhile py_isspace cs"]
  by (simp add: dropWhile_idem)

lemma split_ws_word:
  "\<not> py_isspace c \<Longrightarrow>
     split_ws (c # cs) = takeWhile (\<lambda>c. \<not> py_isspace c) (c # cs)
                         # split_ws (dropWhile (\<lambda>c. \<not> py_isspace c) (c # cs))"
  using split_ws.simps [of "c # cs"] by simp

lemma join_Cons: "ws \<noteq> [] \<Longrightarrow> join sep (w # ws) = w @ sep @ join sep ws"
  by (cases ws) simp_all

lemma split_ws_words:
  "w \<in> set (split_ws s) \<Longrightarrow> w \<noteq> [] \<and> (\<forall>c \<in> set w. \<not> py_isspace c)"
proof (induction s arbitrary: w rule: length_induct)
  case (1 s)
  show ?case
  proof (cases s)
    case Nil
    with 1 show ?thesis by (simp add: split_ws_Nil)
  next
    case (Cons c cs)
    show ?thesis
    proof (cases "py_isspace c")
      case True
      have "length (dropWhile py_isspace cs) < length s"
        using Cons length_dropWhile_le [of py_isspace cs] by simp
      moreover have "w \<in> set (split_ws (dropWhile py_isspace cs))"
        using 1(2) Cons True by (simp add: split_ws_space)
      ultimately show ?thesis
        using 1(1) by blast
    next
      case False
      let ?r = "dropWhile (\<lambda>c. \<not> py_isspace c) (c # cs)"
      have len: "length ?r < length s"
        using Cons False length_dropWhile_le [of "\<lambda>c. \<not> py_isspace c" cs] by simp
      from 1(2) Cons False
      have "w = takeWhile (\<lambda>c. \<not> py_isspace c) (c # cs) \<or> w \<in> set (split_ws ?r)"
        by (simp add: split_ws_word)
      then show ?thesis
      proof
        assume w: "w = takeWhile (\<lambda>c. \<not> py_isspace c) (c # cs)"
        then have "w \<noteq> []" using False by simp
        moreover have "\<forall>x \<in> set w. \<not> py_isspace x"
          using w by (auto dest: set_takeWhileD)
        ultimately show ?thesis by blast
      next
        assume "w \<in> set (split_ws ?r)"
        with len 1(1) show ?thesis by blast
      qed
    qed
  qed
qed

lemma join_words_ends:
  assumes "ws \<noteq> []" and "\<forall>w \<in> set ws. w \<noteq> [] \<and> (\<forall>c \<in> set w. \<not> py_isspace c)"
  shows "join sep ws \<noteq> [] \<and> \<not> py_isspace (hd (join sep ws)) \<and> \<not> py_isspace (last (join sep ws))"
  using assms
proof (induction sep ws rule: join.induct)
  case (1 sep)
  then show ?case by simp
next
  case (2 sep x)
  then show ?case by (cases x) auto
next
  case (3 sep x y ys)
  then have ih: "join sep (y # ys) \<noteq> [] \<and> \<not> py_isspace (last (join sep (y # ys)))"
    by simp
  from 3(3) have x: "x \<noteq> []" "\<not> py_isspace (hd x)"
    by (cases x; simp)+
  show ?case
    using ih x by simp
qed

lemma strip_core:
  assumes "X \<noteq> []" and "\<not> py_isspace (hd X)" and "\<not> py_isspace (last X)"
    and "\<forall>c \<in> set a. py_isspace c" and "\<forall>c \<in> set b. py_isspace c"
  shows "strip (a @ X @ b) = X"
proof -
  obtain x xs where X: "X = x # xs" and x: "\<not> py_isspace x"
    using assms(1,2) by (cases X) auto
  obtain ys y where Y: "X = ys @ [y]" and y: "\<not> py_isspace y"
    using assms(1,3) by (cases X rule: rev_cases) auto
  have "dropWhile py_isspace (a @ X @ b) = dropWhile py_isspace (X @ b)"
  proof (rule dropWhile_append2)
    fix c assume "c \<in> set a"
    then show "py_isspace c" using assms(4) by simp
  qed
  also have "\<dots> = X @ b"
    using x by (simp add: X)
  finally have 1: "dropWhile py_isspace (a @ X @ b) = X @ b" .
  have "dropWhile py_isspace (rev b @ rev X) = dropWhile py_isspace (rev X)"
  proof (rule dropWhile_append2)
    fix c assume "c \<in> set (rev b)"
    then show "py_isspace c" using assms(5) by simp
  qed
  also have "\<dots> = rev X"
    using y by (simp add: Y)
  finally have 2: "dropWhile py_isspace (rev b @ rev X) = rev X" .
  show ?thesis
    by (simp add: strip_def 1 2)
qed

lemma strip_spaces:
  assumes "\<forall>c \<in> set a. py_isspace c"
  shows "strip a = []"
proof -
  have d: "dropWhile py_isspace a = []"
    using assms by (simp add: dropWhile_eq_Nil_conv)
  show ?thesis
    unfolding strip_def d by simp
qed

lemma sub_ws_shape:
  "\<exists>b. sub_ws s = (if s \<noteq> [] \<and> py_isspace (hd s) then '' '' else []) @ normalized s @ b
       \<and> (b = [] \<or> b = '' '') \<and> (split_ws s = [] \<longrightarrow> b = [])"
proof (induction s rule: length_induct)
  case (1 s)
  show ?case
  proof (cases s)
    case Nil
    then show ?thesis
      by (simp add: normalized_def split_ws_Nil)
  next
    case (Cons c cs)
    show ?thesis
    proof (cases "py_isspace c")
      case True
      let ?r = "dropWhile py_isspace cs"
      have len: "length ?r < length s"
        using Cons length_dropWhile_le [of py_isspace cs] by simp
      have hd: "\<not> (?r \<noteq> [] \<and> py_isspace (hd ?r))"
        using hd_dropWhile [of py_isspace cs] by auto
      from 1 len obtain b where
        b: "sub_ws ?r = (if ?r \<noteq> [] \<and> py_isspace (hd ?r) then '' '' else []) @ normalized ?r @ b"
          "b = [] \<or> b = '' ''" "split_ws ?r = [] \<longrightarrow> b = []"
        by blast
      have sp: "split_ws s = split_ws ?r"
        using Cons True by (simp add: split_ws_space)
      have "sub_ws s = '' '' @ normalized s @ b"
        using Cons True b(1) hd sp by (simp add: normalized_def)
      then show ?thesis
        using Cons True b(2,3) sp by auto
    next
      case False
      let ?w = "takeWhile (\<lambda>c. \<not> py_isspace c) (c # cs)"
      let ?r = "dropWhile (\<lambda>c. \<not> py_isspace c) (c # cs)"
      have len: "length ?r < length s"
        using Cons False length_dropWhile_le [of "\<lambda>c. \<not> py_isspace c" cs] by simp
      have wr: "c # cs = ?w @ ?r"
        by simp
      have wn: "\<forall>x \<in> set ?w. \<not> py_isspace x"
        by (auto dest: set_takeWhileD)
      have sw: "sub_ws s = ?w @ sub_ws ?r"
        using sub_ws_nospace_append [OF wn, of ?r] Cons wr by simp
      have sp: "split_ws s = ?w # split_ws ?r"
        using Cons False by (simp add: split_ws_word)
      from 1 len obtain b where
        b: "sub_ws ?r = (if ?r \<noteq> [] \<and> py_isspace (hd ?r) then '' '' else []) @ normalized ?r @ b"
          "b = [] \<or> b = '' ''" "split_ws ?r = [] \<longrightarrow> b = []"
        by blast
      have hdr: "?r \<noteq> [] \<Longrightarrow> py_isspace (hd ?r)"
        using hd_dropWhile [of "\<lambda>c. \<not> py_isspace c" "c # cs"] by simp
      show ?thesis
      proof (cases "?r = []")
        case True
        then have "sub_ws s = normalized s @ []"
          using sw sp by (simp add: normalized_def split_ws_Nil)
        then show ?thesis
          using Cons False sp by auto
      next
        case rne: False
        show ?thesis
        proof (cases "split_ws ?r = []")
          case True
          then have "sub_ws ?r = '' ''"
            using b rne hdr by (simp add: normalized_def)
          then have "sub_ws s = normalized s @ '' ''"
            using sw sp True by (simp add: normalized_def)
          then show ?thesis
            using Cons False sp by auto
        next
          case wne: False
          have "normalized s = ?w @ '' '' @ normalized ?r"
            using sp wne by (simp add: normalized_def join_Cons)
          then have "sub_ws s = normalized s @ b"
            using sw b(1) rne hdr by simp
          then show ?thesis
            using Cons False sp b(2) by auto
        qed
      qed
    qed
  qed
qed

lemma clean_text_normalized: "clean_text (Some s) = normalized s"
proof (cases "s = []")
  case True
  then show ?thesis
    by (simp add: clean_text_def normalized_def split_ws_Nil)
next
  case False
  obtain b where
    b: "sub_ws s = (if s \<noteq> [] \<and> py_isspace (hd s) then '' '' else []) @ normalized s @ b"
      "b = [] \<or> b = '' ''" "split_ws s = [] \<longrightarrow> b = []"
    using sub_ws_shape [of s] by blast
  let ?a = "if s \<noteq> [] \<and> py_isspace (hd s) then '' '' else []"
  have a: "\<forall>c \<in> set ?a. py_isspace c"
    by (simp add: isspace_blank)
  have bs: "\<forall>c \<in> set b. py_isspace c"
    using b(2) by (auto simp: isspace_blank)
  have "strip (?a @ normalized s @ b) = normalized s"
  proof (cases "split_ws s = []")
    case True
    then have "normalized s = []" "b = []"
      using b(3) by (simp_all add: normalized_def)
    then show ?thesis
      using strip_spaces [OF a] by simp
  next
    case False
    have "\<forall>w \<in> set (split_ws s). w \<noteq> [] \<and> (\<forall>c \<in> set w. \<not> py_isspace c)"
      using split_ws_words by blast
    from join_words_ends [OF False this, of "'' ''"]
    have "normalized s \<noteq> []" "\<not> py_isspace (hd (normalized s))"
      "\<not> py_isspace (last (normalized s))"
      by (simp_all add: normalized_def)
    then show ?thesis
      using a bs by (intro strip_core)
  qed
  then show ?thesis
    using False b(1) by (simp add: clean_text_def)
qed

lemma source_id_of_specified: "identifier_as_specified sel soup (source_id_of sel soup)"
  by (simp add: identifier_as_specified_def source_id_of_def clean_text_normalized
      split: option.splits)

lemma scrape_case_fields:
  assumes "scrape_case url' utcnow soup = Inr c"
  shows "case_source_id c = source_id_of sel_case_rid soup"
    and "case_tags c = tags_of soup"
    and "case_modality c = [if ''ct'' \<in> set (tags_of soup) then ''CT'' else ''X-ray'']"
    and "case_title c = case_title_of soup"
  using assms by (auto simp: scrape_case_def Let_def split: sum.splits)

lemma patient_item_no_label:
  "tag_select_one sel_data_item_label item = None \<Longrightarrow> patient_item item p = Inl AttributeError"
  by (simp add: patient_item_def)

lemma length_sub_ws: "length (sub_ws s) \<le> length s"
proof (induction s rule: sub_ws.induct)
  case 1
  then show ?case by simp
next
  case (2 c cs)
  have "length (dropWhile py_isspace cs) \<le> length cs"
    by (rule length_dropWhile_le)
  with 2 show ?case
    by (cases "py_isspace c") auto
qed

lemma length_strip: "length (strip s) \<le> length s"
proof -
  have "length (dropWhile py_isspace (rev (dropWhile py_isspace s)))
          \<le> length (rev (dropWhile py_isspace s))"
    by (rule length_dropWhile_le)
  also have "\<dots> \<le> length s"
    by (simp add: length_dropWhile_le)
  finally show ?thesis
    by (simp add: strip_def)
qed

lemma length_clean_text: "length (clean_text (Some s)) \<le> length s"
  using length_strip [of "sub_ws s"] length_sub_ws [of s]
  by (simp add: clean_text_def)

lemma length_remove_from: "length (remove_from old s) \<le> length s"
proof (induction old s rule: remove_from.induct)
  case (1 old)
  then show ?case by simp
next
  case (2 old c cs)
  show ?case
  proof (cases "old \<noteq> [] \<and> startswith old (c # cs)")
    case True
    with 2 have "length (remove_from old (drop (length old) (c # cs)))
                   \<le> length (drop (length old) (c # cs))"
      by simp
    also have "\<dots> \<le> length (c # cs)"
      by simp
    finally show ?thesis
      using True by simp
  next
    case False
    with 2 show ?thesis
      by auto
  qed
qed

lemma length_replace_empty: "length (replace_empty old s) \<le> length s"
  by (simp add: replace_empty_def length_remove_from)

lemma length_findall_digits_first: "length (findall_digits_first s) \<le> length s"
proof -
  have "length (findall_digits_first s) \<le> length (dropWhile (\<lambda>c. \<not> py_isdigit c) s)"
    unfolding findall_digits_first_def by (rule length_takeWhile_le)
  also have "\<dots> \<le> length s"
    by (rule length_dropWhile_le)
  finally show ?thesis .
qed

lemma patient_item_ValueError:
  assumes "patient_item item p = Inl ValueError"
  shows "4300 < length (get_text item)"
proof -
  from assms obtain label_el where l: "tag_select_one sel_data_item_label item = Some label_el"
    by (cases "tag_select_one sel_data_item_label item") (auto simp: patient_item_def)
  let ?v = "replace_empty (get_text label_el) (clean_text (Some (get_text item)))"
  have "4300 < length (findall_digits_first ?v)"
    using assms l
    by (auto simp: patient_item_def Let_def py_int_def split: if_splits option.splits)
  also have "\<dots> \<le> length ?v"
    by (rule length_findall_digits_first)
  also have "\<dots> \<le> length (clean_text (Some (get_text item)))"
    by (rule length_replace_empty)
  also have "\<dots> \<le> length (get_text item)"
    by (rule length_clean_text)
  finally show ?thesis .
qed

lemma patient_items_raises:
  "\<exists>item \<in> set items. tag_select_one sel_data_item_label item = None
     \<Longrightarrow> \<exists>e. patient_items items p = Inl e"
proof (induction items arbitrary: p)
  case Nil
  then show ?case by simp
next
  case (Cons item items)
  show ?case
  proof (cases "patient_item item p")
    case (Inl e)
    then show ?thesis by simp
  next
    case (Inr p')
    then have "tag_select_one sel_data_item_label item \<noteq> None"
      using patient_item_no_label [of item p] by auto
    with Cons.prems have "\<exists>i \<in> set items. tag_select_one sel_data_item_label i = None"
      by auto
    from Cons.IH [OF this, of p'] Inr show ?thesis by simp
  qed
qed

lemma patient_items_AttributeError:
  assumes "\<forall>i \<in> set items. length (get_text i) \<le> 4300"
    and "patient_items items p = Inl e"
  shows "e = AttributeError"
  using assms
proof (induction items arbitrary: p)
  case Nil
  then show ?case by simp
next
  case (Cons item items)
  show ?case
  proof (cases "patient_item item p")
    case (Inl e')
    with Cons.prems(2) have e: "e' = e"
      by simp
    have "e \<noteq> ValueError"
      using patient_item_ValueError [of item p] Inl e Cons.prems(1) by auto
    then show ?thesis
      by (cases e) simp_all
  next
    case (Inr p')
    with Cons.prems(2) have "patient_items items p' = Inl e"
      by simp
    moreover have "\<forall>i \<in> set items. length (get_text i) \<le> 4300"
      using Cons.prems(1) by simp
    ultimately show ?thesis
      by (rule Cons.IH [rotated])
  qed
qed

lemma inclusions_loop_shape:
  assumes "\<forall>img \<in> set images. modality img = Some ''Unknown'' \<and> plane img = None \<and> figure_label img = None"
  shows "\<forall>img \<in> set (inclusions_loop str_other items images).
           modality img = Some ''Unknown'' \<and> plane img = None \<and> figure_label img = None"
  using assms
proof (induction items arbitrary: images)
  case Nil
  then show ?case by simp
next
  case (Cons item items)
  show ?case
  proof (cases item)
    case (JObject d)
    let ?new = "\<lparr>image_id = py_str str_other (dict_get d ''imageId'' (JString ''unknown'')),
                 figure_label = None, modality = Some ''Unknown'', plane = None,
                 caption = dict_get d ''caption'' (JString []),
                 filepath = dict_get d ''thumbnail'' (JString [])\<rparr>"
    have "\<forall>img \<in> set (images @ [?new]).
            modality img = Some ''Unknown'' \<and> plane img = None \<and> figure_label img = None"
      using Cons.prems by simp
    from Cons.IH [OF this] show ?thesis
      by (simp add: JObject)
  next
    case JNull
    then show ?thesis using Cons.prems by simp
  next
    case (JBool b)
    then show ?thesis using Cons.prems by simp
  next
    case (JInt i)
    then show ?thesis using Cons.prems by simp
  next
    case (JFloat f)
    then show ?thesis using Cons.prems by simp
  next
    case (JString s)
    then show ?thesis using Cons.prems by simp
  next
    case (JArray xs)
    then show ?thesis using Cons.prems by simp
  qed
qed

lemma images_of_shape:
  "\<forall>img \<in> set (images_of loads str_other soup).
     modality img = Some ''Unknown'' \<and> plane img = None \<and> figure_label img = None"
proof -
  have "\<forall>img \<in> set (inclusions_loop str_other items []).
          modality img = Some ''Unknown'' \<and> plane img = None \<and> figure_label img = None" for items
    by (rule inclusions_loop_shape) simp
  then show ?thesis
    by (auto simp: images_of_def split: option.splits json.splits)
qed

lemma images_of_scenario_D:
  assumes "select_one sel_viewer_data soup = Some vd"
    and "loads (get_text vd) = Some scenario_D_data"
  shows "images_of loads str_other soup = [image_D]"
  using assms
  by (simp add: images_of_def scenario_D_data_def dict_get_def py_str_def image_D_def)

lemma images_of_failure:
  assumes "select_one sel_viewer_data soup = None
         \<or> (\<exists>vd. select_one sel_viewer_data soup = Some vd \<and> loads (get_text vd) = None)"
  shows "images_of loads str_other soup = []"
  using assms by (auto simp: images_of_def)

lemma scrape_article_raises:
  "select_one sel_title soup = None
     \<Longrightarrow> scrape_article loads str_other url' utcnow soup = Inl AttributeError"
  by (simp add: scrape_article_def)

lemma scrape_case_untitled:
  assumes "select_one sel_title soup = None" and "scrape_case url' utcnow soup = Inr c"
  shows "case_title c = ''Untitled''"
  using scrape_case_fields(4) [OF assms(2)] assms(1) by (simp add: case_title_of_def)

lemma patient_of_no_anchor:
  "select_one sel_patient_data soup = None
     \<Longrightarrow> patient_of soup = Inr \<lparr>age = None, age_unit = ''years'', sex = None, other = None\<rparr>"
  by (simp add: patient_of_def)
section \<open>The claims\<close>

text \<open>
  C1.  A document without the title heading should give the title \<open>"Untitled"\<close> from both
  entry points.  \<open>scrape_case\<close> guards the read (lemma \<open>scrape_case_untitled\<close>);
  \<open>scrape_article\<close> reads \<open>.text\<close> of the missing heading and raises.
\<close>

theorem scrape_article_no_heading_raises:
  "scrape_article loads str_other url' utcnow page_no_title = Inl AttributeError"
proof -
  have "select_one sel_title page_no_title = None"
    by code_simp
  then show ?thesis
    by (rule scrape_article_raises)
qed

text \<open>
  C2.  The titles of the sections of \<open>scrape_article\<close>, in order, are the reserved title
  \<open>"Introduction"\<close> and the cleaned texts of the heading children (levels 2 to 4) of the
  content container, each kept exactly when the children of the container that follow it,
  up to the next heading child, hold a \<open>p\<close> element or a \<open>ul\<close> element with an
  \<open>li\<close> element below it.  Content of any other kind or depth (an \<open>ol\<close>, a \<open>p\<close>
  inside a \<open>div\<close>) keeps nothing.  So the titles are a subsequence of
  \<open>"Introduction"\<close> followed by the heading sequence, and they are the heading sequence
  itself when no such content precedes the first heading and every heading has some.
\<close>

theorem section_titles_are_kept_headings:
  assumes "scrape_article loads str_other url' utcnow soup = Inr a"
  shows "map title (article_sections a) = kept_titles (content_children soup)
       \<and> subseq (map title (article_sections a)) (''Introduction'' # heading_titles soup)
       \<and> (\<not> has_content (takeWhile (\<lambda>n. \<not> is_heading n) (content_children soup))
            \<and> (\<forall>hb \<in> set (heading_bodies (content_children soup)). has_content (snd hb))
          \<longrightarrow> map title (article_sections a) = heading_titles soup)"
proof -
  have s: "map title (article_sections a) = kept_titles (content_children soup)"
    using scrape_article_fields(1) [OF assms] by (simp add: sections_of_titles)
  show ?thesis
    using s kept_titles_subseq [of "content_children soup"] kept_titles_all [of "content_children soup"]
    by (simp add: heading_titles_def)
qed

theorem section_titles_are_kept_headings_witness:
  "scrape_article sample_loads sample_str ''https://radiopaedia.org/articles/a''
       ''2024-01-01T00:00:00'' page_sections
     = Inr (projr (scrape_article sample_loads sample_str ''https://radiopaedia.org/articles/a''
         ''2024-01-01T00:00:00'' page_sections))
   \<and> map title (article_sections (projr (scrape_article sample_loads sample_str
         ''https://radiopaedia.org/articles/a'' ''2024-01-01T00:00:00'' page_sections)))
       = [''Introduction'', ''CT'']
   \<and> subseq [''Introduction'', ''CT''] (''Introduction'' # heading_titles page_sections)
   \<and> scrape_article sample_loads sample_str ''https://radiopaedia.org/articles/a''
       ''2024-01-01T00:00:00'' page_scenario_C
     = Inr (projr (scrape_article sample_loads sample_str ''https://radiopaedia.org/articles/a''
         ''2024-01-01T00:00:00'' page_scenario_C))
   \<and> \<not> has_content (takeWhile (\<lambda>n. \<not> is_heading n) (content_children page_scenario_C))
   \<and> map (\<lambda>hb. has_content (snd hb)) (heading_bodies (content_children page_scenario_C))
       = [True, True]
   \<and> heading_titles page_scenario_C = [''Findings'', ''Discussion'']
   \<and> map title (article_sections (projr (scrape_article sample_loads sample_str
         ''https://radiopaedia.org/articles/a'' ''2024-01-01T00:00:00'' page_scenario_C)))
       = [''Findings'', ''Discussion'']"
proof -
  let ?r = "scrape_article sample_loads sample_str ''https://radiopaedia.org/articles/a''
              ''2024-01-01T00:00:00'' page_sections"
  let ?q = "scrape_article sample_loads sample_str ''https://radiopaedia.org/articles/a''
              ''2024-01-01T00:00:00'' page_scenario_C"
  have h: "?r = Inr (projr ?r)"
    by code_simp
  have k: "kept_titles (content_children page_sections) = [''Introduction'', ''CT'']"
    by code_simp
  note t = section_titles_are_kept_headings [OF h]
  have "map title (article_sections (projr ?r)) = kept_titles (content_children page_sections)"
    using t by blast
  then have a: "map title (article_sections (projr ?r)) = [''Introduction'', ''CT'']"
    by (simp only: k)
  have "subseq (map title (article_sections (projr ?r)))
          (''Introduction'' # heading_titles page_sections)"
    using t by blast
  then have b: "subseq [''Introduction'', ''CT''] (''Introduction'' # heading_titles page_sections)"
    by (simp only: a)
  have g: "?q = Inr (projr ?q)"
    by code_simp
  have l: "\<not> has_content (takeWhile (\<lambda>n. \<not> is_heading n) (content_children page_scenario_C))"
    by code_simp
  have f: "map (\<lambda>hb. has_content (snd hb)) (heading_bodies (content_children page_scenario_C))
             = [True, True]"
    by code_simp
  have e: "\<forall>hb \<in> set (heading_bodies (content_children page_scenario_C)). has_content (snd hb)"
    by code_simp
  have i: "heading_titles page_scenario_C = [''Findings'', ''Discussion'']"
    by code_simp
  have "map title (article_sections (projr ?q)) = heading_titles page_scenario_C"
    using section_titles_are_kept_headings [OF g] l e by blast
  then have c: "map title (article_sections (projr ?q)) = [''Findings'', ''Discussion'']"
    by (simp only: i)
  show ?thesis
    by (intro conjI h a b g l f i c)
qed

theorem section_titles_differ_from_headings:
  "map title (article_sections (projr (scrape_article sample_loads sample_str
       ''https://radiopaedia.org/articles/a'' ''2024-01-01T00:00:00'' page_sections)))
     \<noteq> heading_titles page_sections"
  by code_simp

text \<open>
  C3.  Where the hidden data node decodes to the payload of scenario D, the image list is
  exactly one image with identifier \<open>"5"\<close>, caption \<open>"c"\<close> and file reference \<open>"u"\<close>;
  figure label and plane are unset and the modality is the placeholder \<open>"Unknown"\<close>.
  Every image decoded from embedded data has this modality, plane and figure label.
\<close>

theorem embedded_images_shape:
  "(\<forall>img \<in> set (images_of loads str_other soup).
       modality img = Some ''Unknown'' \<and> plane img = None \<and> figure_label img = None)
   \<and> (select_one sel_viewer_data soup = Some vd \<and> loads (get_text vd) = Some scenario_D_data
        \<longrightarrow> images_of loads str_other soup = [image_D]
          \<and> (\<forall>a. scrape_article loads str_other url' utcnow soup = Inr a
                 \<longrightarrow> article_images a = [image_D])
          \<and> (select_one sel_title soup \<noteq> None
                 \<longrightarrow> (\<exists>a. scrape_article loads str_other url' utcnow soup = Inr a)))"
proof (intro conjI impI allI)
  show "\<forall>img \<in> set (images_of loads str_other soup).
          modality img = Some ''Unknown'' \<and> plane img = None \<and> figure_label img = None"
    by (rule images_of_shape)
next
  assume "select_one sel_viewer_data soup = Some vd \<and> loads (get_text vd) = Some scenario_D_data"
  then show "images_of loads str_other soup = [image_D]"
    using images_of_scenario_D by blast
next
  fix a
  assume d: "select_one sel_viewer_data soup = Some vd \<and> loads (get_text vd) = Some scenario_D_data"
    and r: "scrape_article loads str_other url' utcnow soup = Inr a"
  from d have "images_of loads str_other soup = [image_D]"
    using images_of_scenario_D by blast
  with scrape_article_fields(2) [OF r] show "article_images a = [image_D]"
    by simp
next
  assume "select_one sel_title soup \<noteq> None"
  then show "\<exists>a. scrape_article loads str_other url' utcnow soup = Inr a"
    by (rule scrape_article_returns)
qed

theorem embedded_images_shape_witness:
  "select_one sel_viewer_data page_scenario_D = Some (hidden_data_el scenario_D_text)
   \<and> sample_loads (get_text (hidden_data_el scenario_D_text)) = Some scenario_D_data
   \<and> select_one sel_title page_scenario_D \<noteq> None
   \<and> scrape_article sample_loads sample_str ''https://radiopaedia.org/articles/a''
       ''2024-01-01T00:00:00'' page_scenario_D
     = Inr (projr (scrape_article sample_loads sample_str ''https://radiopaedia.org/articles/a''
         ''2024-01-01T00:00:00'' page_scenario_D))
   \<and> article_images (projr (scrape_article sample_loads sample_str
         ''https://radiopaedia.org/articles/a'' ''2024-01-01T00:00:00'' page_scenario_D))
       = [image_D]
   \<and> images_of sample_loads sample_str page_scenario_D = [image_D]
   \<and> modality image_D = Some ''Unknown'' \<and> plane image_D = None"
proof -
  let ?r = "scrape_article sample_loads sample_str ''https://radiopaedia.org/articles/a''
              ''2024-01-01T00:00:00'' page_scenario_D"
  have v: "select_one sel_viewer_data page_scenario_D = Some (hidden_data_el scenario_D_text)"
    by code_simp
  have d: "sample_loads (get_text (hidden_data_el scenario_D_text)) = Some scenario_D_data"
    by code_simp
  have t: "select_one sel_title page_scenario_D \<noteq> None"
    by code_simp
  note e = embedded_images_shape [where loads = sample_loads and str_other = sample_str
      and soup = page_scenario_D and vd = "hidden_data_el scenario_D_text"
      and ?url' = "''https://radiopaedia.org/articles/a''" and utcnow = "''2024-01-01T00:00:00''"]
  have "\<exists>a. ?r = Inr a"
    using e v d t by blast
  then have h: "?r = Inr (projr ?r)"
    by auto
  have j: "article_images (projr ?r) = [image_D]"
    using e v d h by blast
  have i: "images_of sample_loads sample_str page_scenario_D = [image_D]"
    using e v d by blast
  have "\<forall>img \<in> set (images_of sample_loads sample_str page_scenario_D).
          modality img = Some ''Unknown'' \<and> plane img = None \<and> figure_label img = None"
    using e by blast
  then have m: "modality image_D = Some ''Unknown''" and p: "plane image_D = None"
    by (simp_all add: i)
  show ?thesis
    by (intro conjI v d t h j i m p)
qed

theorem scenario_D_modality_is_set:
  "map modality (article_images (projr (scrape_article sample_loads sample_str
       ''https://radiopaedia.org/articles/a'' ''2024-01-01T00:00:00'' page_scenario_D)))
     = [Some ''Unknown'']
   \<and> map modality (article_images (projr (scrape_article sample_loads sample_str
       ''https://radiopaedia.org/articles/a'' ''2024-01-01T00:00:00'' page_scenario_D)))
     \<noteq> [None]"
  by code_simp

text \<open>
  C4.  For patient-data items labelled \<open>Age:\<close> and \<open>Gender:\<close> that carry \<open>34 years\<close>
  and \<open>Female\<close>, the age is 34 and the sex should be \<open>"female"\<close>.  The source removes
  the label from the cleaned item text and keeps the blank that separated them, so the
  sex is \<open>" female"\<close>; the dict \<open>patient\<close> is then passed to no field of the \<open>Case\<close>.
  Without the patient-data anchor both entries stay \<open>None\<close> (lemma
  \<open>patient_of_no_anchor\<close>).
\<close>

theorem patient_scenario_B_keeps_blank:
  "patient_of page_scenario_B
     = Inr \<lparr>age = Some 34, age_unit = ''years'', sex = Some '' female'', other = None\<rparr>"
  by code_simp

text \<open>
  C5.  Every text fragment stored in a record should have gone through \<open>clean_text\<close>.
  The paragraph branch of the segmenter does so; the list branch stores \<open>li.text\<close> as it
  is, so the line keeps the blanks that \<open>clean_text\<close> would have removed.
\<close>

theorem list_item_lines_not_normalized:
  "article_sections (projr (scrape_article loads str_other url' utcnow page_list))
     = [\<lparr>slug = ''introduction'', title = ''Introduction'', markdown = ''-  a  b ''\<rparr>]
   \<and> clean_text (Some '' a  b '') = ''a b''"
proof -
  have t: "select_one sel_title page_list = Some (heading_el ''Bronchiectasis'')"
    by code_simp
  have s: "sections_of page_list
             = [\<lparr>slug = ''introduction'', title = ''Introduction'', markdown = ''-  a  b ''\<rparr>]"
    by code_simp
  have c: "clean_text (Some '' a  b '') = ''a b''"
    by code_simp
  show ?thesis
    by (simp add: scrape_article_def t s c)
qed

text \<open>
  C6.  In every record that an entry point returns, the identifier is \<open>"unknown"\<close> when
  the anchor is absent and otherwise \<open>"rID-"\<close> followed by the whole anchor text with its
  whitespace normalized (its words joined by single blanks); it is never empty.  The text
  is not reduced to its digits: only where the anchor text is a run of digits between
  whitespace is the identifier \<open>"rID-"\<close> followed by these digits.
\<close>

theorem source_id_as_specified:
  "(scrape_case url' utcnow soup = Inr c
      \<longrightarrow> identifier_as_specified sel_case_rid soup (case_source_id c))
   \<and> (scrape_article loads str_other url' utcnow soup = Inr a
      \<longrightarrow> identifier_as_specified sel_article_rid soup (article_source_id a))
   \<and> (identifier_as_specified sel soup sid \<longrightarrow> sid \<noteq> [])
   \<and> (identifier_as_specified sel soup sid \<and> select_one sel soup = None \<longrightarrow> sid = ''unknown'')
   \<and> (identifier_as_specified sel soup sid \<and> select_one sel soup = Some el
        \<and> get_text el = ws1 @ ds @ ws2 \<and> ds \<noteq> [] \<and> list_all py_isdigit ds
        \<and> list_all py_isspace ws1 \<and> list_all py_isspace ws2
      \<longrightarrow> sid = ''rID-'' @ ds)"
proof (intro conjI impI)
  assume "scrape_case url' utcnow soup = Inr c"
  from scrape_case_fields(1) [OF this]
  show "identifier_as_specified sel_case_rid soup (case_source_id c)"
    by (simp add: source_id_of_specified)
next
  assume "scrape_article loads str_other url' utcnow soup = Inr a"
  from scrape_article_fields(3) [OF this]
  show "identifier_as_specified sel_article_rid soup (article_source_id a)"
    by (simp add: source_id_of_specified)
next
  assume "identifier_as_specified sel soup sid"
  then show "sid \<noteq> []"
    by (simp add: identifier_as_specified_def)
next
  assume "identifier_as_specified sel soup sid \<and> select_one sel soup = None"
  then show "sid = ''unknown''"
    by (auto simp: identifier_as_specified_def)
next
  assume h: "identifier_as_specified sel soup sid \<and> select_one sel soup = Some el
        \<and> get_text el = ws1 @ ds @ ws2 \<and> ds \<noteq> [] \<and> list_all py_isdigit ds
        \<and> list_all py_isspace ws1 \<and> list_all py_isspace ws2"
  then have "clean_text (Some (ws1 @ ds @ ws2)) = ds"
    by (intro clean_text_padded) (auto simp: list_all_iff digit_not_space)
  then have "normalized (ws1 @ ds @ ws2) = ds"
    by (simp add: clean_text_normalized)
  with h show "sid = ''rID-'' @ ds"
    by (auto simp: identifier_as_specified_def)
qed

theorem source_id_as_specified_witness:
  "scrape_case ''https://radiopaedia.org/cases/a'' ''2024-01-01T00:00:00'' page_rid
     = Inr (projr (scrape_case ''https://radiopaedia.org/cases/a'' ''2024-01-01T00:00:00'' page_rid))
   \<and> scrape_article sample_loads sample_str ''https://radiopaedia.org/articles/a''
        ''2024-01-01T00:00:00'' page_rid
     = Inr (projr (scrape_article sample_loads sample_str ''https://radiopaedia.org/articles/a''
        ''2024-01-01T00:00:00'' page_rid))
   \<and> select_one sel_case_rid page_rid = Some rid_el
   \<and> select_one sel_article_rid page_rid = Some rid_el
   \<and> get_text rid_el = '' '' @ ''8654'' @ '' ''
   \<and> case_source_id (projr (scrape_case ''https://radiopaedia.org/cases/a''
        ''2024-01-01T00:00:00'' page_rid)) = ''rID-8654''
   \<and> article_source_id (projr (scrape_article sample_loads sample_str
        ''https://radiopaedia.org/articles/a'' ''2024-01-01T00:00:00'' page_rid)) = ''rID-8654''
   \<and> select_one sel_case_rid page_no_label = None
   \<and> case_source_id (projr (scrape_case ''https://radiopaedia.org/cases/a''
        ''2024-01-01T00:00:00'' page_scenario_B)) = ''unknown''"
proof -
  let ?c = "scrape_case ''https://radiopaedia.org/cases/a'' ''2024-01-01T00:00:00'' page_rid"
  let ?a = "scrape_article sample_loads sample_str ''https://radiopaedia.org/articles/a''
              ''2024-01-01T00:00:00'' page_rid"
  let ?b = "scrape_case ''https://radiopaedia.org/cases/a'' ''2024-01-01T00:00:00'' page_scenario_B"
  have hc: "?c = Inr (projr ?c)" by code_simp
  have ha: "?a = Inr (projr ?a)" by code_simp
  have hb: "?b = Inr (projr ?b)" by code_simp
  have sc: "select_one sel_case_rid page_rid = Some rid_el" by code_simp
  have sa: "select_one sel_article_rid page_rid = Some rid_el" by code_simp
  have sn: "select_one sel_case_rid page_no_label = None" by code_simp
  have sb: "select_one sel_case_rid page_scenario_B = None" by code_simp
  have tx: "get_text rid_el = '' '' @ ''8654'' @ '' ''" by code_simp
  have dg: "''8654'' \<noteq> [] \<and> list_all py_isdigit ''8654''
            \<and> list_all py_isspace '' '' \<and> list_all py_isspace '' ''"
    by code_simp
  have ic: "identifier_as_specified sel_case_rid page_rid (case_source_id (projr ?c))"
    using source_id_as_specified [where ?url' = "''https://radiopaedia.org/cases/a''"
        and utcnow = "''2024-01-01T00:00:00''" and soup = page_rid and c = "projr ?c"] hc
    by blast
  have ia: "identifier_as_specified sel_article_rid page_rid (article_source_id (projr ?a))"
    using source_id_as_specified [where loads = sample_loads and str_other = sample_str
        and ?url' = "''https://radiopaedia.org/articles/a''"
        and utcnow = "''2024-01-01T00:00:00''" and soup = page_rid and a = "projr ?a"] ha
    by blast
  have ib: "identifier_as_specified sel_case_rid page_scenario_B (case_source_id (projr ?b))"
    using source_id_as_specified [where ?url' = "''https://radiopaedia.org/cases/a''"
        and utcnow = "''2024-01-01T00:00:00''" and soup = page_scenario_B and c = "projr ?b"] hb
    by blast
  have rc: "case_source_id (projr ?c) = ''rID-'' @ ''8654''"
    using source_id_as_specified [where sel = sel_case_rid and soup = page_rid
        and sid = "case_source_id (projr ?c)" and el = rid_el and ?ws1.0 = "'' ''"
        and ds = "''8654''" and ?ws2.0 = "'' ''"] ic sc tx dg
    by blast
  have ra: "article_source_id (projr ?a) = ''rID-'' @ ''8654''"
    using source_id_as_specified [where sel = sel_article_rid and soup = page_rid
        and sid = "article_source_id (projr ?a)" and el = rid_el and ?ws1.0 = "'' ''"
        and ds = "''8654''" and ?ws2.0 = "'' ''"] ia sa tx dg
    by blast
  have rb: "case_source_id (projr ?b) = ''unknown''"
    using source_id_as_specified [where sel = sel_case_rid and soup = page_scenario_B
        and sid = "case_source_id (projr ?b)"] ib sb
    by blast
  from rc have rc': "case_source_id (projr ?c) = ''rID-8654''" by simp
  from ra have ra': "article_source_id (projr ?a) = ''rID-8654''" by simp
  show ?thesis
    by (intro conjI hc ha sc sa tx rc' ra' sn rb)
qed

theorem identifier_keeps_whole_anchor_text:
  "select_one sel_case_rid page_rid_text = Some rid_text_el
   \<and> select_one sel_article_rid page_rid_text = Some rid_text_el
   \<and> digits_of (get_text rid_text_el) = ''8654''
   \<and> case_source_id (projr (scrape_case ''https://radiopaedia.org/cases/a''
        ''2024-01-01T00:00:00'' page_rid_text)) = ''rID-ID: 86 54x''
   \<and> case_source_id (projr (scrape_case ''https://radiopaedia.org/cases/a''
        ''2024-01-01T00:00:00'' page_rid_text)) \<noteq> ''rID-'' @ digits_of (get_text rid_text_el)
   \<and> article_source_id (projr (scrape_article sample_loads sample_str
        ''https://radiopaedia.org/articles/a'' ''2024-01-01T00:00:00'' page_rid_text))
       \<noteq> ''rID-'' @ digits_of (get_text rid_text_el)"
  by code_simp

text \<open>
  C7.  A page without the hidden data node, or with one whose text fails to decode, should
  give an empty image list and no error.  The embedded-data reader does so (lemma
  \<open>embedded_data_failure_gives_no_images\<close>), and \<open>scrape_article\<close> returns the
  empty list on every such page that has the title heading.  On a page without the title
  heading the unguarded read of line 144 raises before the reader runs, so a page whose
  hidden data node is absent gets no image list at all.
\<close>

theorem absent_data_node_without_heading_raises:
  "select_one sel_viewer_data page_no_title = None
   \<and> scrape_article loads str_other url' utcnow page_no_title = Inl AttributeError"
proof -
  have v: "select_one sel_viewer_data page_no_title = None"
    by code_simp
  have "select_one sel_title page_no_title = None"
    by code_simp
  then have "scrape_article loads str_other url' utcnow page_no_title = Inl AttributeError"
    by (rule scrape_article_raises)
  with v show ?thesis
    by simp
qed

lemma embedded_data_failure_gives_no_images:
  assumes "select_one sel_viewer_data soup = None
         \<or> (\<exists>vd. select_one sel_viewer_data soup = Some vd \<and> loads (get_text vd) = None)"
  shows "images_of loads str_other soup = []
       \<and> (\<forall>a. scrape_article loads str_other url' utcnow soup = Inr a \<longrightarrow> article_images a = [])
       \<and> (select_one sel_title soup \<noteq> None
            \<longrightarrow> (\<exists>a. scrape_article loads str_other url' utcnow soup = Inr a
                      \<and> article_images a = []))"
proof -
  have e: "images_of loads str_other soup = []"
    using assms by (rule images_of_failure)
  have r: "article_images a = []"
    if "scrape_article loads str_other url' utcnow soup = Inr a" for a
    using scrape_article_fields(2) [OF that] e by simp
  have "\<exists>a. scrape_article loads str_other url' utcnow soup = Inr a \<and> article_images a = []"
    if "select_one sel_title soup \<noteq> None"
    using scrape_article_returns [OF that, of loads str_other url' utcnow] r by blast
  with e r show ?thesis
    by blast
qed



text \<open>
  C10.  Where the patient-data anchor is present and one of its data items contains no
  label element at any depth, \<open>scrape_case\<close> raises and returns no record.  The
  exception is the \<open>AttributeError\<close> of \<open>.text\<close> read on \<open>None\<close>, unless an earlier
  age item has raised \<open>ValueError\<close> on a digit run over the conversion limit, which no
  item of at most 4300 characters can.  An item whose label is nested below a child has no
  label child and raises nothing.
\<close>

theorem data_item_without_label_raises:
  assumes "select_one sel_patient_data soup = Some patient_data"
    and "item \<in> set (tag_select sel_data_item patient_data)"
    and "tag_select_one sel_data_item_label item = None"
  shows "(\<exists>e. scrape_case url' utcnow soup = Inl e)
       \<and> ((\<forall>i \<in> set (tag_select sel_data_item patient_data). length (get_text i) \<le> 4300)
            \<longrightarrow> scrape_case url' utcnow soup = Inl AttributeError)"
proof -
  let ?p = "\<lparr>age = None, age_unit = ''years'', sex = None, other = None\<rparr>"
  let ?items = "tag_select sel_data_item patient_data"
  have "\<exists>i \<in> set ?items. tag_select_one sel_data_item_label i = None"
    using assms(2,3) by blast
  from patient_items_raises [OF this, of ?p]
  obtain e where e: "patient_items ?items ?p = Inl e"
    by blast
  then have p: "patient_of soup = Inl e"
    using assms(1) by (simp add: patient_of_def)
  then have r: "scrape_case url' utcnow soup = Inl e"
    by (simp add: scrape_case_def)
  have "e = AttributeError" if "\<forall>i \<in> set ?items. length (get_text i) \<le> 4300"
    using that e by (rule patient_items_AttributeError)
  with r show ?thesis
    by blast
qed

theorem data_item_without_label_raises_witness:
  "select_one sel_patient_data page_no_label = Some patient_data_no_label
   \<and> item_no_label \<in> set (tag_select sel_data_item patient_data_no_label)
   \<and> tag_select_one sel_data_item_label item_no_label = None
   \<and> map (\<lambda>i. length (get_text i)) (tag_select sel_data_item patient_data_no_label) = [13, 6]
   \<and> scrape_case ''https://radiopaedia.org/cases/a'' ''2024-01-01T00:00:00'' page_no_label
       = Inl AttributeError"
proof -
  have a: "select_one sel_patient_data page_no_label = Some patient_data_no_label"
    by code_simp
  have b: "item_no_label \<in> set (tag_select sel_data_item patient_data_no_label)"
    by code_simp
  have c: "tag_select_one sel_data_item_label item_no_label = None"
    by code_simp
  have d: "map (\<lambda>i. length (get_text i)) (tag_select sel_data_item patient_data_no_label)
             = [13, 6]"
    by code_simp
  have l: "\<forall>i \<in> set (tag_select sel_data_item patient_data_no_label). length (get_text i) \<le> 4300"
    by code_simp
  have r: "scrape_case ''https://radiopaedia.org/cases/a'' ''2024-01-01T00:00:00'' page_no_label
             = Inl AttributeError"
    using data_item_without_label_raises [OF a b c] l by blast
  show ?thesis
    by (intro conjI a b c d r)
qed

theorem nested_label_returns_record:
  "select_one sel_patient_data page_nested_label = Some patient_data_nested_label
   \<and> item_nested_label \<in> set (tag_select sel_data_item patient_data_nested_label)
   \<and> label_children item_nested_label = []
   \<and> scrape_case ''https://radiopaedia.org/cases/a'' ''2024-01-01T00:00:00'' page_nested_label
       = Inr (projr (scrape_case ''https://radiopaedia.org/cases/a'' ''2024-01-01T00:00:00''
           page_nested_label))
   \<and> scrape_case ''https://radiopaedia.org/cases/a'' ''2024-01-01T00:00:00'' page_nested_label
       \<noteq> Inl AttributeError"
  by code_simp

end
